theory Spec2Isabelle
  imports Main "HOL-Library.Word"
begin

section \<open>notlogin.c: the placeholder login program of Miniserver\<close>

text \<open>
  The program is one function:
  \<^verbatim>\<open>
  int main(int argc, char** argv) {
    printf(
      "Miniserver does not provide a login prompt. It has no shell anyway.\n"
      "If you need to execute a command, do so via ssh.\n"
    );
    sigset_t sigmask;
    sigemptyset(&sigmask);
    while (1) sigsuspend(&sigmask);
  }
  \<close>
  It is modelled at the level of the C library calls it makes. The process state and
  the log of calls are passed explicitly; what the operating system decides (whether
  the write succeeds, what the uninitialised variable holds, whether a call of
  \<open>sigsuspend\<close> ever returns) is read from an environment. The loop has no bound, so it
  takes fuel: the number of iterations looked at.
\<close>

subsection \<open>Data\<close>

text \<open>A \<open>sigset_t\<close> is the set of the signal numbers it holds.\<close>

type_synonym sigset = "nat set"

text \<open>
  The actions of a process that its environment can see. The first three are the
  library calls of \<open>main\<close>, with the argument values they are given; the others are
  further actions of a process: reading \<open>argc\<close>, reading \<open>argv[i]\<close>, opening a file, a
  network operation, a heap allocation.
\<close>

datatype effect =
    Printf string
  | Sigemptyset
  | Sigsuspend sigset
  | Read_argc
  | Deref_argv nat
  | Open_file string
  | Net_op
  | Heap_alloc nat

fun is_stdout_write :: "effect \<Rightarrow> bool" where
  "is_stdout_write (Printf s) = True"
| "is_stdout_write e = False"

fun is_sigsuspend :: "effect \<Rightarrow> bool" where
  "is_sigsuspend (Sigsuspend m) = True"
| "is_sigsuspend e = False"

fun is_arg_access :: "effect \<Rightarrow> bool" where
  "is_arg_access Read_argc = True"
| "is_arg_access (Deref_argv i) = True"
| "is_arg_access e = False"

fun is_file_net_heap :: "effect \<Rightarrow> bool" where
  "is_file_net_heap (Open_file p) = True"
| "is_file_net_heap Net_op = True"
| "is_file_net_heap (Heap_alloc n) = True"
| "is_file_net_heap e = False"

text \<open>
  The state of the process: the automatic variable \<open>sigmask\<close> of \<open>main\<close>, the
  characters the stream \<open>stdout\<close> has accepted, the calls made so far (oldest first)
  and the number of calls of \<open>sigsuspend\<close> among them.
\<close>

record state =
  sigmask :: sigset
  stdout :: string
  trace :: "effect list"
  suspends :: nat

text \<open>
  The environment: \<open>write_ok\<close> tells whether the write on \<open>stdout\<close> succeeds;
  \<open>garbage\<close> is the indeterminate content of \<open>sigmask\<close> at its declaration;
  \<open>resumes k\<close> tells whether call number \<open>k\<close> of \<open>sigsuspend\<close> returns (a signal was
  caught) or the signal ends the process inside the call ("A SIGTERM ends the program,
  sigsuspend does not return in that case").
\<close>

record env =
  write_ok :: bool
  garbage :: sigset
  resumes :: "nat \<Rightarrow> bool"

text \<open>
  How a statement ends: control goes on to the next statement (\<open>Normal\<close>), the fuel
  ran out inside the loop (\<open>Running\<close>), a signal ended the process (\<open>Terminated\<close>), or
  \<open>main\<close> returned a value.
\<close>

datatype status = Normal | Running | Terminated | Returned int

definition start :: "env \<Rightarrow> state" where
  "start w = \<lparr>sigmask = garbage w, stdout = [], trace = [], suspends = 0\<rparr>"

subsection \<open>The library calls\<close>

text \<open>
  \<open>printf\<close> with a format that has no conversion: the characters go to the stream
  \<open>stdout\<close> and their number is returned, or the write fails and a negative value is
  returned (a write that fails after some characters is not modelled; neither is the
  buffer of the stream).
\<close>

definition printf :: "env \<Rightarrow> string \<Rightarrow> state \<Rightarrow> int \<times> state" where
  "printf w s st =
     (if write_ok w
      then (int (length s), st\<lparr>stdout := stdout st @ s, trace := trace st @ [Printf s]\<rparr>)
      else (- 1, st\<lparr>trace := trace st @ [Printf s]\<rparr>))"

definition sigemptyset :: "state \<Rightarrow> int \<times> state" where
  "sigemptyset st = (0, st\<lparr>sigmask := {}, trace := trace st @ [Sigemptyset]\<rparr>)"

text \<open>
  \<open>sigsuspend\<close> takes the set by a pointer to const: it installs the set \<open>m\<close> as the
  blocked signals and suspends the thread, in one action. When it returns, it returns
  \<open>-1\<close>; when the signal ends the process it does not return (\<open>None\<close> for the value).
\<close>

definition sigsuspend :: "env \<Rightarrow> sigset \<Rightarrow> state \<Rightarrow> int option \<times> state" where
  "sigsuspend w m st =
     (let st' = st\<lparr>trace := trace st @ [Sigsuspend m], suspends := Suc (suspends st)\<rparr>
      in if resumes w (suspends st) then (Some (- 1), st') else (None, st'))"

subsection \<open>The program\<close>

text \<open>The two string literals of the source, which the compiler concatenates.\<close>

definition notice :: string where
  "notice =
     ''Miniserver does not provide a login prompt. It has no shell anyway.\<newline>'' @
     ''If you need to execute a command, do so via ssh.\<newline>''"

text \<open>
  \<open>while (1) sigsuspend(&sigmask);\<close> The condition is the constant \<open>1\<close>; the value of
  the call is dropped.
\<close>

fun suspend_loop :: "env \<Rightarrow> nat \<Rightarrow> state \<Rightarrow> status \<times> state" where
  "suspend_loop w 0 st = (Running, st)"
| "suspend_loop w (Suc n) st =
     (if (1::int) \<noteq> 0
      then (case sigsuspend w (sigmask st) st of
              (None, st') \<Rightarrow> (Terminated, st')
            | (Some r, st') \<Rightarrow> suspend_loop w n st')
      else (Normal, st))"

text \<open>
  \<open>main\<close>: the values of \<open>printf\<close> and \<open>sigemptyset\<close> are dropped. Reaching the closing
  brace of \<open>main\<close> would return 0.
\<close>

definition main :: "nat \<Rightarrow> 32 word \<Rightarrow> string list option \<Rightarrow> env \<Rightarrow> status \<times> state" where
  "main fuel argc argv w =
     (let (r1, st1) = printf w notice (start w);
          (r2, st2) = sigemptyset st1
      in case suspend_loop w fuel st2 of
           (Normal, st3) \<Rightarrow> (Returned 0, st3)
         | (s, st3) \<Rightarrow> (s, st3))"

text \<open>
  The number of calls of \<open>sigsuspend\<close> that the loop makes with fuel \<open>n\<close> when the next
  call is call number \<open>c\<close>: it goes on while the calls return.
\<close>

fun calls :: "env \<Rightarrow> nat \<Rightarrow> nat \<Rightarrow> nat" where
  "calls w 0 c = 0"
| "calls w (Suc n) c = (if resumes w c then Suc (calls w n (Suc c)) else 1)"

subsection \<open>What the loop and main compute\<close>

lemma calls_all: "(\<forall>j<n. resumes w (c + j)) \<Longrightarrow> calls w n c = n"
proof (induction n arbitrary: c)
  case 0
  show ?case by simp
next
  case (Suc n)
  from Suc.prems have r: "resumes w c" by (metis add.right_neutral zero_less_Suc)
  have "\<forall>j<n. resumes w (Suc c + j)"
  proof (intro allI impI)
    fix j assume "j < n"
    then have "Suc j < Suc n" by simp
    with Suc.prems have "resumes w (c + Suc j)" by blast
    then show "resumes w (Suc c + j)" by simp
  qed
  then have "calls w n (Suc c) = n" by (rule Suc.IH)
  with r show ?case by simp
qed

lemma calls_gt: "k < n \<Longrightarrow> (\<forall>j<k. resumes w (c + j)) \<Longrightarrow> k < calls w n c"
proof (induction n arbitrary: c k)
  case 0
  then show ?case by simp
next
  case (Suc n)
  show ?case
  proof (cases k)
    case 0
    then show ?thesis by simp
  next
    case (Suc k')
    from Suc.prems(2) Suc have r: "resumes w c" by (metis add.right_neutral zero_less_Suc)
    have "\<forall>j<k'. resumes w (Suc c + j)"
    proof (intro allI impI)
      fix j assume "j < k'"
      then have "Suc j < k" using Suc by simp
      with Suc.prems(2) have "resumes w (c + Suc j)" by blast
      then show "resumes w (Suc c + j)" by simp
    qed
    moreover have "k' < n" using Suc Suc.prems(1) by simp
    ultimately have "k' < calls w n (Suc c)" by (rule Suc.IH[rotated])
    with r Suc show ?thesis by simp
  qed
qed

text \<open>The loop only appends calls of \<open>sigsuspend\<close>, each with the set \<open>sigmask\<close> holds.\<close>

lemma suspend_loop_state:
  "snd (suspend_loop w n st) =
     st\<lparr>trace := trace st @ replicate (calls w n (suspends st)) (Sigsuspend (sigmask st)),
        suspends := suspends st + calls w n (suspends st)\<rparr>"
proof (induction n arbitrary: st)
  case 0
  show ?case by simp
next
  case (Suc n)
  show ?case
    by (cases "resumes w (suspends st)")
       (simp_all add: sigsuspend_def Let_def Suc.IH replicate_app_Cons_same)
qed

text \<open>The loop is left only by a signal that ends the process.\<close>

lemma suspend_loop_status:
  "fst (suspend_loop w n st) =
     (if \<forall>j<n. resumes w (suspends st + j) then Running else Terminated)"
proof (induction n arbitrary: st)
  case 0
  show ?case by simp
next
  case (Suc n)
  show ?case
  proof (cases "resumes w (suspends st)")
    case False
    then have "\<not> (\<forall>j<Suc n. resumes w (suspends st + j))"
      by (metis add.right_neutral zero_less_Suc)
    with False show ?thesis by (simp add: sigsuspend_def Let_def)
  next
    case True
    have "(\<forall>j<Suc n. resumes w (suspends st + j)) = (\<forall>j<n. resumes w (Suc (suspends st) + j))"
      using True by (auto simp: less_Suc_eq_0_disj)
    with True show ?thesis by (simp add: sigsuspend_def Let_def Suc.IH)
  qed
qed

lemma main_state:
  "snd (main n argc argv w) =
     \<lparr>sigmask = {}, stdout = (if write_ok w then notice else []),
      trace = Printf notice # Sigemptyset # replicate (calls w n 0) (Sigsuspend {}),
      suspends = calls w n 0\<rparr>"
proof -
  obtain s st where r: "suspend_loop w n (snd (sigemptyset (snd (printf w notice (start w))))) = (s, st)"
    by (cases "suspend_loop w n (snd (sigemptyset (snd (printf w notice (start w)))))")
  have "snd (main n argc argv w) = st"
    using r by (cases s) (simp_all add: main_def split_def Let_def)
  moreover have "st = snd (suspend_loop w n (snd (sigemptyset (snd (printf w notice (start w))))))"
    using r by simp
  ultimately show ?thesis
    by (simp add: suspend_loop_state sigemptyset_def printf_def start_def)
qed

lemma main_status:
  "fst (main n argc argv w) = (if \<forall>j<n. resumes w j then Running else Terminated)"
proof -
  obtain s st where r: "suspend_loop w n (snd (sigemptyset (snd (printf w notice (start w))))) = (s, st)"
    by (cases "suspend_loop w n (snd (sigemptyset (snd (printf w notice (start w)))))")
  have s: "s = (if \<forall>j<n. resumes w j then Running else Terminated)"
    using suspend_loop_status[of w n "snd (sigemptyset (snd (printf w notice (start w))))"] r
    by (simp add: sigemptyset_def printf_def start_def)
  have "fst (main n argc argv w) = (case s of Normal \<Rightarrow> Returned 0 | x \<Rightarrow> x)"
    using r by (cases s) (simp_all add: main_def split_def Let_def)
  with s show ?thesis by simp
qed

subsection \<open>The notice\<close>

text \<open>
  C8. The text that \<open>main\<close> writes is the two-line notice below: the one write on
  \<open>stdout\<close> in the log of any run carries exactly this string, and \<open>stdout\<close> holds
  exactly this string when the write succeeds. The string is two lines, each ended by
  a newline, the first saying that there is no login prompt and no shell, the second
  pointing to ssh.
\<close>

theorem notice_text:
  "filter is_stdout_write (trace (snd (main fuel argc argv w))) =
     [Printf (''Miniserver does not provide a login prompt. It has no shell anyway.'' @
              [CHR 0x0A] @
              ''If you need to execute a command, do so via ssh.'' @ [CHR 0x0A])]
   \<and> hd (trace (snd (main fuel argc argv w))) =
       Printf (''Miniserver does not provide a login prompt. It has no shell anyway.'' @
               [CHR 0x0A] @
               ''If you need to execute a command, do so via ssh.'' @ [CHR 0x0A])
   \<and> stdout (snd (main fuel argc argv w)) =
       (if write_ok w
        then ''Miniserver does not provide a login prompt. It has no shell anyway.'' @
             [CHR 0x0A] @
             ''If you need to execute a command, do so via ssh.'' @ [CHR 0x0A]
        else [])
   \<and> notice =
       ''Miniserver does not provide a login prompt. It has no shell anyway.'' @ [CHR 0x0A] @
       ''If you need to execute a command, do so via ssh.'' @ [CHR 0x0A]
   \<and> CHR 0x0A \<notin> set ''Miniserver does not provide a login prompt. It has no shell anyway.''
   \<and> CHR 0x0A \<notin> set ''If you need to execute a command, do so via ssh.''
   \<and> length (filter (\<lambda>c. c = CHR 0x0A) notice) = 2
   \<and> length notice = 117"
proof -
  have n: "notice =
       ''Miniserver does not provide a login prompt. It has no shell anyway.'' @ [CHR 0x0A] @
       ''If you need to execute a command, do so via ssh.'' @ [CHR 0x0A]"
    by (simp add: notice_def)
  have t: "filter is_stdout_write (trace (snd (main fuel argc argv w))) = [Printf notice]"
    by (simp add: main_state)
  have h: "hd (trace (snd (main fuel argc argv w))) = Printf notice"
    by (simp add: main_state)
  have s: "stdout (snd (main fuel argc argv w)) = (if write_ok w then notice else [])"
    by (simp add: main_state)
  have l: "length (filter (\<lambda>c. c = CHR 0x0A) notice) = 2 \<and> length notice = 117"
    by (simp add: notice_def)
  have c: "CHR 0x0A \<notin> set ''Miniserver does not provide a login prompt. It has no shell anyway.''
     \<and> CHR 0x0A \<notin> set ''If you need to execute a command, do so via ssh.''"
    by simp
  from t h s n l c show ?thesis by (simp only: simp_thms)
qed

subsection \<open>The notice is written first, whatever the arguments\<close>

text \<open>
  C1. For every invocation of \<open>main\<close>, whatever the arguments and the environment, the
  first call in the log is the write of the notice on \<open>stdout\<close>; the string is the
  constant \<open>notice\<close>, and \<open>stdout\<close> holds it when the write succeeds.
\<close>

theorem first_action_is_notice:
  "trace (snd (main fuel argc argv w)) \<noteq> []
   \<and> hd (trace (snd (main fuel argc argv w))) = Printf notice
   \<and> stdout (snd (main fuel argc argv w)) = (if write_ok w then notice else [])"
  by (simp add: main_state)

text \<open>
  C2. Two invocations that differ only in \<open>argc\<close> and \<open>argv\<close> end in the same status with
  the same state (the same output, the same calls of \<open>sigsuspend\<close>), and neither
  returns from \<open>main\<close>.
\<close>

theorem arguments_ignored:
  "main fuel argc argv w = main fuel argc' argv' w
   \<and> (\<forall>r. fst (main fuel argc argv w) \<noteq> Returned r)"
proof
  show "main fuel argc argv w = main fuel argc' argv' w"
    by (simp add: main_def)
  show "\<forall>r. fst (main fuel argc argv w) \<noteq> Returned r"
    by (simp add: main_status)
qed

text \<open>
  C3. In every execution of \<open>main\<close>, a call of \<open>sigsuspend\<close> in the log has the write of
  the notice strictly before it.
\<close>

theorem notice_before_suspension:
  assumes "j < length (trace (snd (main fuel argc argv w)))"
    and "is_sigsuspend (trace (snd (main fuel argc argv w)) ! j)"
  shows "\<exists>i<j. trace (snd (main fuel argc argv w)) ! i = Printf notice"
proof (cases j)
  case 0
  with assms(2) show ?thesis by (simp add: main_state)
next
  case (Suc j')
  then have "0 < j" by simp
  moreover have "trace (snd (main fuel argc argv w)) ! 0 = Printf notice"
    by (simp add: main_state)
  ultimately show ?thesis by blast
qed

theorem notice_before_suspension_witness:
  "2 < length (trace (snd (main 1 0 None \<lparr>write_ok = True, garbage = {}, resumes = \<lambda>k. True\<rparr>)))
   \<and> is_sigsuspend
        (trace (snd (main 1 0 None \<lparr>write_ok = True, garbage = {}, resumes = \<lambda>k. True\<rparr>)) ! 2)
   \<and> (\<exists>i<2. trace (snd (main 1 0 None \<lparr>write_ok = True, garbage = {}, resumes = \<lambda>k. True\<rparr>)) ! i
          = Printf notice)"
proof -
  let ?w = "\<lparr>write_ok = True, garbage = {}, resumes = \<lambda>k. True\<rparr>"
  have t: "trace (snd (main 1 0 None ?w)) = [Printf notice, Sigemptyset, Sigsuspend {}]"
    by (simp add: main_def printf_def sigemptyset_def sigsuspend_def start_def)
  have a: "2 < length (trace (snd (main 1 0 None ?w)))"
    unfolding t by simp
  have b: "is_sigsuspend (trace (snd (main 1 0 None ?w)) ! 2)"
    unfolding t by simp
  from notice_before_suspension [OF a b] a b show ?thesis by blast
qed

subsection \<open>The suspension loop\<close>

text \<open>
  C4. Every iteration of the loop is one call of \<open>sigsuspend\<close> with the empty set, and
  after each return of the call the next action is that call again: when the calls
  before call \<open>k\<close> have returned and the fuel reaches iteration \<open>k\<close>, the entry of the log
  after the two opening calls and the \<open>k\<close> earlier suspensions is \<open>Sigsuspend {}\<close>.
  (That the set is installed and the thread suspended in one atomic action is what
  \<open>sigsuspend\<close> itself does: it is one entry of the log.)
\<close>

theorem every_iteration_suspends_with_empty_set:
  assumes "k < fuel" and "\<forall>j<k. resumes w j"
  shows "2 + k < length (trace (snd (main fuel argc argv w)))
         \<and> trace (snd (main fuel argc argv w)) ! (2 + k) = Sigsuspend {}"
proof -
  from assms have "k < calls w fuel 0" by (simp add: calls_gt)
  then show ?thesis by (simp add: main_state del: calls.simps)
qed

theorem every_iteration_suspends_with_empty_set_witness:
  "(1::nat) < 3 \<and> resumes \<lparr>write_ok = False, garbage = {9}, resumes = \<lambda>k. k < 1\<rparr> 0
   \<and> trace (snd (main 3 0 None \<lparr>write_ok = False, garbage = {9}, resumes = \<lambda>k. k < 1\<rparr>)) ! 3
       = Sigsuspend {}"
proof -
  let ?w = "\<lparr>write_ok = False, garbage = {9}, resumes = \<lambda>k. k < (1::nat)\<rparr>"
  have a: "(1::nat) < 3" by simp
  have b: "\<forall>j<1. resumes ?w j" by simp
  from every_iteration_suspends_with_empty_set [OF a b, of 0 None] a b
  show ?thesis by simp
qed

text \<open>
  C5. There is no exit path: \<open>main\<close> never returns, in any environment; and when every
  call of \<open>sigsuspend\<close> returns, then after any number \<open>n\<close> of iterations the program is
  still in the loop, has made \<open>n\<close> calls, and one more unit of fuel gives one more call.
\<close>

theorem no_exit_path:
  "(\<forall>r. fst (main n argc argv w) \<noteq> Returned r)
   \<and> fst (main n argc argv w) \<noteq> Normal
   \<and> ((\<forall>k. resumes w k) \<longrightarrow>
        fst (main n argc argv w) = Running
        \<and> suspends (snd (main n argc argv w)) = n
        \<and> trace (snd (main (Suc n) argc argv w))
            = trace (snd (main n argc argv w)) @ [Sigsuspend {}])"
proof -
  have "calls w m 0 = m" if "\<forall>k. resumes w k" for m
    using that by (simp add: calls_all)
  then show ?thesis
    by (simp add: main_status main_state replicate_append_same del: calls.simps)
qed

theorem no_exit_path_witness:
  "(\<forall>k. resumes \<lparr>write_ok = True, garbage = {}, resumes = \<lambda>k. True\<rparr> k)
   \<and> fst (main 3 0 None \<lparr>write_ok = True, garbage = {}, resumes = \<lambda>k. True\<rparr>) = Running
   \<and> suspends (snd (main 3 0 None \<lparr>write_ok = True, garbage = {}, resumes = \<lambda>k. True\<rparr>)) = 3
   \<and> trace (snd (main 4 0 None \<lparr>write_ok = True, garbage = {}, resumes = \<lambda>k. True\<rparr>))
       = trace (snd (main 3 0 None \<lparr>write_ok = True, garbage = {}, resumes = \<lambda>k. True\<rparr>))
         @ [Sigsuspend {}]"
proof -
  let ?w = "\<lparr>write_ok = True, garbage = {}, resumes = \<lambda>k. True\<rparr>"
  have a: "\<forall>k. resumes ?w k" by simp
  from no_exit_path [of 3 0 None ?w] a show ?thesis by simp
qed

text \<open>
  C9. The variable \<open>sigmask\<close> is empty from \<open>sigemptyset\<close> on, whatever it held before:
  it is empty in every state \<open>main\<close> reaches, every call of \<open>sigsuspend\<close> in the log was
  given the empty set, \<open>sigemptyset\<close> is called once, and the loop leaves \<open>sigmask\<close> as
  it found it.
\<close>

theorem sigmask_stays_empty:
  "sigmask (snd (main n argc argv w)) = {}
   \<and> filter is_sigsuspend (trace (snd (main n argc argv w)))
       = replicate (suspends (snd (main n argc argv w))) (Sigsuspend {})
   \<and> filter (\<lambda>e. e = Sigemptyset) (trace (snd (main n argc argv w))) = [Sigemptyset]
   \<and> sigmask (snd (suspend_loop w n st)) = sigmask st"
  by (simp add: main_state suspend_loop_state)

subsection \<open>Effects\<close>

text \<open>
  C6. The value of the write is not looked at: whether the write succeeds or fails,
  \<open>main\<close> ends in the same status, with the same calls, the same \<open>sigmask\<close> and the same
  number of suspensions; only what \<open>stdout\<close> holds differs.
\<close>

theorem write_result_not_inspected:
  "fst (main n argc argv (w\<lparr>write_ok := b\<rparr>)) = fst (main n argc argv w)
   \<and> (snd (main n argc argv (w\<lparr>write_ok := b\<rparr>)))\<lparr>stdout := []\<rparr>
       = (snd (main n argc argv w))\<lparr>stdout := []\<rparr>"
proof -
  have "calls (w\<lparr>write_ok := b\<rparr>) m c = calls w m c" for m c
    by (induction m arbitrary: c) simp_all
  then show ?thesis
    by (simp add: main_status main_state)
qed

text \<open>
  C7. Over any execution of \<open>main\<close> the log holds exactly one write on \<open>stdout\<close>, the
  notice, and no opening of a file, no network operation and no heap allocation.
\<close>

theorem one_write_no_other_effects:
  "filter is_stdout_write (trace (snd (main n argc argv w))) = [Printf notice]
   \<and> filter is_file_net_heap (trace (snd (main n argc argv w))) = []"
  by (simp add: main_state)

text \<open>
  C10. \<open>main\<close> never reads \<open>argc\<close> and never goes through \<open>argv\<close>: the log holds no access
  to either, for every \<open>argc\<close> and \<open>argv\<close>, and the run is the one with \<open>argc = 0\<close> and a
  null \<open>argv\<close>.
\<close>

theorem arguments_never_accessed:
  "filter is_arg_access (trace (snd (main n argc argv w))) = []
   \<and> main n argc argv w = main n 0 None w"
proof
  show "filter is_arg_access (trace (snd (main n argc argv w))) = []"
    by (simp add: main_state)
  show "main n argc argv w = main n 0 None w"
    by (simp add: main_def)
qed

end
